theory Spec2Isabelle
  imports Main "HOL-Library.Sublist"
begin

section \<open>Python strings and environments\<close>

text \<open>
  Strings are Python 2 byte strings, modelled as \<open>string\<close>. An environment
  (\<open>os.environ\<close>, \<open>Module.environment\<close>) is a dictionary from strings to strings.
\<close>

type_synonym environ = "string \<rightharpoonup> string"

text \<open>Python exceptions, with the message where the source gives one.\<close>

datatype exn =
    AttributeError
  | TypeError
  | KeyError
  | IndexError
  | ValueError
  | IOError
  | Exception string
  | CCTError string

text \<open>\<open>s.split(sep)\<close> for a one-character separator: empty pieces are kept.\<close>

fun split_char :: "char \<Rightarrow> string \<Rightarrow> string list" where
  "split_char c [] = [[]]"
| "split_char c (x # xs) =
     (if x = c then [] # split_char c xs
      else (case split_char c xs of [] \<Rightarrow> [[x]] | t # ts \<Rightarrow> (x # t) # ts))"

text \<open>The characters \<open>str.strip()\<close>, \<open>str.rstrip()\<close> and \<open>str.split()\<close> treat as blank.\<close>

definition is_space :: "char \<Rightarrow> bool" where
  "is_space c = (c = CHR '' '' \<or> c = CHR 0x09 \<or> c = CHR 0x0A \<or> c = CHR 0x0B
     \<or> c = CHR 0x0C \<or> c = CHR 0x0D)"

definition lstrip :: "string \<Rightarrow> string" where
  "lstrip s = dropWhile is_space s"

definition rstrip :: "string \<Rightarrow> string" where
  "rstrip s = rev (dropWhile is_space (rev s))"

definition strip :: "string \<Rightarrow> string" where
  "strip s = rstrip (lstrip s)"

text \<open>\<open>" ".join(ts)\<close>.\<close>

fun join_sp :: "string list \<Rightarrow> string" where
  "join_sp [] = []"
| "join_sp [t] = t"
| "join_sp (t # u # r) = t @ '' '' @ join_sp (u # r)"

text \<open>Truth value of \<open>d.get(k)\<close> for a dictionary of strings: set and not empty.\<close>

definition truthy :: "string option \<Rightarrow> bool" where
  "truthy v = (case v of None \<Rightarrow> False | Some s \<Rightarrow> s \<noteq> [])"

section \<open>Module: environment resolution and variable substitution\<close>

text \<open>
  \<open>Module.getenv(name, default=None)\<close>. The first argument is \<open>os.environ\<close>, the second
  \<open>self.environment\<close>; the result is \<open>None\<close> where Python returns \<open>None\<close>.
\<close>

definition getenv :: "environ \<Rightarrow> environ \<Rightarrow> string \<Rightarrow> string option \<Rightarrow> string option" where
  "getenv host environment name dflt =
     (if truthy (host name) then host name
      else (case environment name of Some v \<Rightarrow> Some v | None \<Rightarrow> dflt))"

text \<open>The body of the loop of \<open>Module._replace_variables\<close>: the new value of \<open>token\<close>.\<close>

definition replace_token :: "environ \<Rightarrow> environ \<Rightarrow> string \<Rightarrow> string" where
  "replace_token host environment token =
     (case token of
        [] \<Rightarrow> token
      | c # var_name \<Rightarrow>
          if c = CHR ''$'' then
            (if truthy (host var_name) then the (host var_name)
             else if truthy (environment var_name) then the (environment var_name)
             else token)
          else token)"

text \<open>\<open>Module._replace_variables\<close>: \<open>result += token + " "\<close> for each piece of \<open>string.split(" ")\<close>.\<close>

definition replace_variables :: "environ \<Rightarrow> environ \<Rightarrow> string \<Rightarrow> string" where
  "replace_variables host environment s =
     foldl (\<lambda>result token. result @ replace_token host environment token @ '' '') []
       (split_char CHR '' '' s)"

section \<open>Operations and argument binding\<close>

text \<open>The lifecycle states: the strings \<open>"NotRun"\<close>, \<open>"Processing"\<close>, \<open>"Passed"\<close>, \<open>"Error"\<close>.\<close>

datatype state = NotRun | Processing | Passed | Error

record operation =
  op_command :: string
  op_args :: "string list"
  op_state :: state

text \<open>
  \<open>Operation.__init__(command, args)\<close>: \<open>args\<close> is \<open>None\<close> or a list of strings, each
  stored with its trailing blanks removed.
\<close>

definition Operation :: "string \<Rightarrow> string list option \<Rightarrow> operation" where
  "Operation cmd a =
     \<lparr>op_command = cmd,
      op_args = (case a of None \<Rightarrow> [] | Some xs \<Rightarrow> map rstrip xs),
      op_state = NotRun\<rparr>"

type_synonym kwargs = "string \<rightharpoonup> string"

text \<open>\<open>key, value = arg.split('=', 1)\<close>, for an \<open>arg\<close> that contains \<open>=\<close>.\<close>

definition arg_key :: "string \<Rightarrow> string" where
  "arg_key arg = takeWhile (\<lambda>c. c \<noteq> CHR ''='') arg"

definition arg_value :: "string \<Rightarrow> string" where
  "arg_value arg = drop 1 (dropWhile (\<lambda>c. c \<noteq> CHR ''='') arg)"

text \<open>
  One round of the loop over \<open>operation.args\<close> in \<open>Module.run\<close>; \<open>method_args\<close> is
  \<open>inspect.getargspec(method).args\<close>, the accumulator is the pair \<open>(args, kwargs)\<close>.
\<close>

definition bind_arg :: "string list \<Rightarrow> string list \<times> kwargs \<Rightarrow> string \<Rightarrow> string list \<times> kwargs" where
  "bind_arg method_args acc arg =
     (case acc of (a, kw) \<Rightarrow>
        if CHR ''='' \<in> set arg then
          (let key = arg_key arg; val = arg_value arg
           in if key \<in> set method_args then (a, kw(key \<mapsto> val))
              else (a @ [strip arg], kw))
        else (a @ [strip arg], kw))"

text \<open>The tokens that the loop binds by name.\<close>

definition is_named :: "string list \<Rightarrow> string \<Rightarrow> bool" where
  "is_named method_args arg = (CHR ''='' \<in> set arg \<and> arg_key arg \<in> set method_args)"

definition bind_args :: "string list \<Rightarrow> string list \<Rightarrow> string list \<times> kwargs" where
  "bind_args method_args as = foldl (bind_arg method_args) ([], Map.empty) as"

section \<open>Module instances and the runner\<close>

text \<open>
  A capability of a module: the parameter names \<open>inspect.getargspec\<close> reports for it, and
  what calling it with positional and named arguments does. The business logic of a module
  is outside the runtime, so it is a parameter: it acts on a private state \<open>'w\<close> of the
  module and either returns or raises.
\<close>

record 'w capability =
  meth_args :: "string list"
  meth_call :: "string list \<Rightarrow> kwargs \<Rightarrow> 'w \<Rightarrow> exn option \<times> 'w"

text \<open>
  The object \<open>self.module.instance\<close>: its \<open>environment\<close> and \<open>state\<close> attributes, its
  \<open>setup\<close> and \<open>teardown\<close>, and \<open>inst_getattr\<close> for
  \<open>getattr(self, command)\<close> followed by \<open>inspect.getargspec\<close>: \<open>Inl\<close> when either raises
  (no such attribute, or an attribute that is not a function).
\<close>

record 'w module_instance =
  inst_environment :: environ
  inst_state :: state
  inst_getattr :: "string \<Rightarrow> exn + 'w capability"
  inst_setup :: "'w \<Rightarrow> exn option \<times> 'w"
  inst_teardown :: "'w \<Rightarrow> exn option \<times> 'w"
  inst_world :: 'w

text \<open>The object \<open>self.module\<close> of the runner, as \<open>Module.__init__\<close> builds it.\<close>

record 'w cct_module =
  mod_name :: string
  mod_operations :: "operation list"
  mod_instance :: "'w module_instance"
  mod_state :: state

record 'w runner =
  runner_module :: "'w cct_module"
  runner_state :: state

definition ModuleRunner :: "'w cct_module \<Rightarrow> 'w runner" where
  "ModuleRunner m = \<lparr>runner_module = m, runner_state = Processing\<rparr>"

text \<open>
  What a run did, in order: \<open>setup()\<close> was called, \<open>instance.run(operation)\<close> was called
  with this command and these arguments, a capability was invoked with these bound
  arguments, \<open>teardown()\<close> was called.
\<close>

datatype event =
    EvSetup
  | EvRun string "string list"
  | EvCall string "string list" kwargs
  | EvTeardown

text \<open>\<open>Module._process_environment(operation)\<close>; the first argument is \<open>os.environ\<close>.\<close>

definition process_environment :: "environ \<Rightarrow> 'w module_instance \<Rightarrow> operation \<Rightarrow> operation" where
  "process_environment host inst operation =
     operation
       \<lparr>op_command :=
          (if CHR ''$'' \<in> set (op_command operation)
           then replace_variables host (inst_environment inst) (op_command operation)
           else op_command operation),
        op_args :=
          map (\<lambda>a. if CHR ''$'' \<in> set a
                    then replace_variables host (inst_environment inst) a else a)
            (op_args operation)\<rparr>"

text \<open>
  \<open>Module.run(operation)\<close>: the exception it re-raises if any, the instance and the
  operation as it leaves them, and the capability call it made.
\<close>

definition module_run ::
  "'w module_instance \<Rightarrow> operation \<Rightarrow> exn option \<times> 'w module_instance \<times> operation \<times> event list" where
  "module_run inst operation =
     (case inst_getattr inst (op_command operation) of
        Inl e \<Rightarrow>
          (Some e, inst\<lparr>inst_state := Error\<rparr>, operation\<lparr>op_state := Error\<rparr>, [])
      | Inr meth \<Rightarrow>
          (case bind_args (meth_args meth) (op_args operation) of (a, kw) \<Rightarrow>
             (case meth_call meth a kw (inst_world inst) of
                (Some e, w) \<Rightarrow>
                  (Some e, inst\<lparr>inst_world := w, inst_state := Error\<rparr>,
                   operation\<lparr>op_state := Error\<rparr>, [EvCall (op_command operation) a kw])
              | (None, w) \<Rightarrow>
                  (None, inst\<lparr>inst_world := w\<rparr>,
                   operation\<lparr>op_state := Passed\<rparr>, [EvCall (op_command operation) a kw]))))"

definition reserved :: "string list" where
  "reserved = [''setup'', ''run'', ''url'', ''version'', ''teardown'']"

text \<open>
  The loop of \<open>ModuleRunner.run\<close> over \<open>self.module.operations\<close>. It carries
  \<open>self.state\<close> and the instance, and returns the exception raised if any, the two as left,
  the operations as left (they are mutated in place) and the events in order.
\<close>

fun run_operations ::
  "environ \<Rightarrow> state \<Rightarrow> 'w module_instance \<Rightarrow> operation list \<Rightarrow>
   exn option \<times> state \<times> 'w module_instance \<times> operation list \<times> event list" where
  "run_operations host st inst [] = (None, st, inst, [], [])"
| "run_operations host st inst (operation # rest) =
     (if op_command operation \<in> set reserved then
        (case run_operations host st inst rest of
           (r, st', inst', rest', evs) \<Rightarrow> (r, st', inst', operation # rest', evs))
      else
        (let operation1 = process_environment host inst operation;
             ev = EvRun (op_command operation1) (op_args operation1)
         in case module_run inst operation1 of
              (Some e, inst1, operation2, evs1) \<Rightarrow>
                (Some e, Error, inst1, operation2 # rest, ev # evs1)
            | (None, inst1, operation2, evs1) \<Rightarrow>
                (case run_operations host Passed inst1 rest of
                   (r, st', inst', rest', evs) \<Rightarrow>
                     (r, st', inst', operation2 # rest', ev # evs1 @ evs))))"

text \<open>\<open>ModuleRunner.run()\<close>: the exception it raises if any, the runner as left, the events.\<close>

definition runner_run :: "environ \<Rightarrow> 'w runner \<Rightarrow> exn option \<times> 'w runner \<times> event list" where
  "runner_run host rn =
     (let m = runner_module rn; inst = mod_instance m in
      case inst_setup inst (inst_world inst) of
        (Some e, w) \<Rightarrow>
          (Some e, rn\<lparr>runner_module := m\<lparr>mod_instance := inst\<lparr>inst_world := w\<rparr>\<rparr>\<rparr>, [EvSetup])
      | (None, w) \<Rightarrow>
          (case run_operations host (runner_state rn) (inst\<lparr>inst_world := w\<rparr>) (mod_operations m) of
             (Some e, st, inst', ops', evs) \<Rightarrow>
               (Some e,
                rn\<lparr>runner_module := m\<lparr>mod_operations := ops', mod_instance := inst'\<rparr>,
                   runner_state := st\<rparr>,
                EvSetup # evs)
           | (None, st, inst', ops', evs) \<Rightarrow>
               (case inst_teardown inst' (inst_world inst') of
                  (Some e, w') \<Rightarrow>
                    (Some e,
                     rn\<lparr>runner_module :=
                          m\<lparr>mod_operations := ops', mod_instance := inst'\<lparr>inst_world := w'\<rparr>\<rparr>,
                        runner_state := st\<rparr>,
                     EvSetup # evs @ [EvTeardown])
                | (None, w') \<Rightarrow>
                    (None,
                     rn\<lparr>runner_module :=
                          m\<lparr>mod_operations := ops', mod_instance := inst'\<lparr>inst_world := w'\<rparr>\<rparr>,
                        runner_state := Passed\<rparr>,
                     EvSetup # evs @ [EvTeardown]))))"

text \<open>
  A module as the runtime builds one: \<open>Module.__init__(name, None)\<close> with operations added,
  around an instance with the one capability \<open>dump(self, *args)\<close> of the class \<open>Dummy\<close>,
  which accepts any positional arguments and returns.
\<close>

definition dump_instance :: "unit module_instance" where
  "dump_instance =
     \<lparr>inst_environment = Map.empty,
      inst_state = NotRun,
      inst_getattr = (\<lambda>n. if n = ''dump''
         then Inr \<lparr>meth_args = [''self''],
                   meth_call = (\<lambda>a kw w. if dom kw = {} then (None, w) else (Some TypeError, w))\<rparr>
         else Inl AttributeError),
      inst_setup = (\<lambda>w. (None, w)),
      inst_teardown = (\<lambda>w. (None, w)),
      inst_world = ()\<rparr>"

definition dump_module :: "operation list \<Rightarrow> unit cct_module" where
  "dump_module ops =
     \<lparr>mod_name = ''base.Dummy'', mod_operations = ops, mod_instance = dump_instance,
      mod_state = NotRun\<rparr>"

text \<open>The command an event is about.\<close>

definition ev_command :: "event \<Rightarrow> string option" where
  "ev_command ev = (case ev of EvRun c a \<Rightarrow> Some c | EvCall c a kw \<Rightarrow> Some c | _ \<Rightarrow> None)"


section \<open>ShellModule: script introspection\<close>

text \<open>The end of a line.\<close>

definition NL :: string where
  "NL = [CHR 0x0A]"

text \<open>\<open>s.split()\<close>: the pieces between runs of blanks, none of them empty.\<close>

fun split_by :: "(char \<Rightarrow> bool) \<Rightarrow> string \<Rightarrow> string list" where
  "split_by p [] = [[]]"
| "split_by p (x # xs) =
     (if p x then [] # split_by p xs
      else (case split_by p xs of [] \<Rightarrow> [[x]] | t # ts \<Rightarrow> (x # t) # ts))"

definition py_split :: "string \<Rightarrow> string list" where
  "py_split s = filter (\<lambda>t. t \<noteq> []) (split_by is_space s)"

text \<open>\<open>sub in s\<close> for strings.\<close>

fun contains :: "string \<Rightarrow> string \<Rightarrow> bool" where
  "contains sub [] = (sub = [])"
| "contains sub (c # cs) = (prefix sub (c # cs) \<or> contains sub cs)"

definition is_digit :: "char \<Rightarrow> bool" where
  "is_digit c = (c \<in> set ''0123456789'')"

text \<open>
  \<open>re.compile("\$\d+").search(line)\<close>: the leftmost \<open>$\<close> that a digit follows, with all the
  digits after it; \<open>None\<close> when there is none.
\<close>

fun param_search :: "string \<Rightarrow> string option" where
  "param_search [] = None"
| "param_search (c # cs) =
     (if c = CHR ''$'' \<and> takeWhile is_digit cs \<noteq> [] then Some (c # takeWhile is_digit cs)
      else param_search cs)"

text \<open>An entry of \<open>ShellModule.names\<close>: the dictionary with keys \<open>name\<close>, \<open>comment\<close>, \<open>params\<close>.\<close>

record function_descriptor =
  fd_name :: string
  fd_comment :: string
  fd_params :: "string \<rightharpoonup> string"

type_synonym names = "string \<rightharpoonup> function_descriptor"

text \<open>The three tests of the loop of \<open>ShellModule._discover\<close>, in its order.\<close>

definition is_comment :: "string \<Rightarrow> bool" where
  "is_comment line = prefix ''#'' line"

definition is_function :: "string \<Rightarrow> bool" where
  "is_function line = (\<not> is_comment line \<and> contains ''function'' line)"

definition is_param :: "string \<Rightarrow> bool" where
  "is_param line = (\<not> is_comment line \<and> \<not> contains ''function'' line \<and> param_search line \<noteq> None)"

definition is_other :: "string \<Rightarrow> bool" where
  "is_other line = (\<not> is_comment line \<and> \<not> contains ''function'' line \<and> param_search line = None)"

text \<open>\<open>line.split()[1][:-2]\<close>, which raises \<open>IndexError\<close> on a line of fewer than two words.\<close>

definition function_name :: "string \<Rightarrow> exn + string" where
  "function_name line =
     (case py_split line of
        t0 # t1 # ts \<Rightarrow> Inr (take (length t1 - 2) t1)
      | _ \<Rightarrow> Inl IndexError)"

text \<open>\<open>line.split('=')[0].split()[-1]\<close>.\<close>

definition param_name :: "string \<Rightarrow> exn + string" where
  "param_name line =
     (case py_split (takeWhile (\<lambda>c. c \<noteq> CHR ''='') line) of
        [] \<Rightarrow> Inl IndexError
      | t # ts \<Rightarrow> Inr (last (t # ts)))"

text \<open>
  One round of the loop of \<open>ShellModule._discover\<close>, on the triple of \<open>self.names\<close>,
  \<open>comment\<close> and \<open>name\<close>.
\<close>

definition discover_line :: "names \<times> string \<times> string \<Rightarrow> string \<Rightarrow> exn + names \<times> string \<times> string" where
  "discover_line s line =
     (case s of (names, comment, name) \<Rightarrow>
        if prefix ''#'' line then Inr (names, comment @ drop 1 line, name)
        else if contains ''function'' line then
          (case function_name line of
             Inl e \<Rightarrow> Inl e
           | Inr name' \<Rightarrow>
               Inr (names(name' \<mapsto> \<lparr>fd_name = name', fd_comment = comment, fd_params = Map.empty\<rparr>),
                    comment, name'))
        else
          (case param_search line of
             Some tok \<Rightarrow>
               (case param_name line of
                  Inl e \<Rightarrow> Inl e
                | Inr pn \<Rightarrow>
                    (case names name of
                       None \<Rightarrow> Inl KeyError
                     | Some fd \<Rightarrow>
                         Inr (names(name \<mapsto> fd\<lparr>fd_params := (fd_params fd)(pn \<mapsto> tok)\<rparr>),
                              comment, name)))
           | None \<Rightarrow> Inr (names, [], name)))"

fun discover_lines ::
  "names \<times> string \<times> string \<Rightarrow> string list \<Rightarrow> exn + names \<times> string \<times> string" where
  "discover_lines s [] = Inr s"
| "discover_lines s (line # rest) =
     (case discover_line s line of Inl e \<Rightarrow> Inl e | Inr s' \<Rightarrow> discover_lines s' rest)"

text \<open>
  \<open>ShellModule._discover\<close> on the lines of the script, each with its newline as iterating
  over the file gives them: \<open>self.names\<close>, or what it raises.
\<close>

definition discover :: "string list \<Rightarrow> exn + names" where
  "discover ls =
     (case discover_lines (Map.empty, [], []) ls of
        Inl e \<Rightarrow> Inl e
      | Inr (names, comment, name) \<Rightarrow> Inr names)"

text \<open>The lines after the last line that resets the comment.\<close>

definition after_reset :: "string list \<Rightarrow> string list" where
  "after_reset ls = rev (takeWhile (\<lambda>l. \<not> is_other l) (rev ls))"

text \<open>The comment buffer after a line.\<close>

definition comment_step :: "string \<Rightarrow> string \<Rightarrow> string" where
  "comment_step c l = (if is_comment l then c @ drop 1 l else if is_other l then [] else c)"

text \<open>
  The documentation of the descriptor that \<open>names\<close> holds for the function that the line
  \<open>d\<close> defines.
\<close>

definition documentation :: "names \<Rightarrow> string \<Rightarrow> string option" where
  "documentation names d =
     (case function_name d of Inl e \<Rightarrow> None | Inr k \<Rightarrow> map_option fd_comment (names k))"

text \<open>The same, in the table that \<open>_discover\<close> builds from the lines \<open>ls\<close>.\<close>

definition discovered_documentation :: "string list \<Rightarrow> string \<Rightarrow> string option" where
  "discovered_documentation ls d =
     (case discover ls of Inl e \<Rightarrow> None | Inr names \<Rightarrow> documentation names d)"

section \<open>CctArtifact: fetching and checking artifacts\<close>

text \<open>
  The library calls the artifact code makes, as parameters: \<open>urlretrieve\<close> gives the bytes
  behind a URL or raises; \<open>hashlib\<close> gives, for the name of an algorithm, the function from
  bytes to hex digest, if it has one; \<open>re_search\<close> and \<open>re_sub\<close> are \<open>search(...).group(0)\<close>
  and \<open>sub\<close> of the compiled pattern \<open>\$\{.*\}\<close>; \<open>str\<close> is \<open>str(ex)\<close>.
\<close>

record lib =
  lib_urlretrieve :: "string \<Rightarrow> exn + string"
  lib_hashlib :: "string \<Rightarrow> (string \<Rightarrow> string) option"
  lib_re_search :: "string \<Rightarrow> string option"
  lib_re_sub :: "string \<Rightarrow> string \<Rightarrow> string"
  lib_str :: "exn \<Rightarrow> string"

record CctArtifact =
  art_name :: string
  art_chksum :: string
  art_url :: string
  art_filename :: string
  art_path :: "string option"

text \<open>
  What the artifact code reads and writes: the files by path, the downloads made (URL and
  target path, in order), and the dictionary \<open>Module.artifacts\<close>.
\<close>

record world =
  w_files :: "string \<rightharpoonup> string"
  w_downloads :: "(string \<times> string) list"
  w_artifacts :: "string \<rightharpoonup> CctArtifact"

text \<open>\<open>CctArtifact.replace_variables(string)\<close>; \<open>[2:-1]\<close> of the match is the variable.\<close>

definition artifact_replace_variables :: "lib \<Rightarrow> environ \<Rightarrow> string \<Rightarrow> exn + string" where
  "artifact_replace_variables l host s =
     (case lib_re_search l s of
        None \<Rightarrow> Inl AttributeError
      | Some m \<Rightarrow>
          (let variable = butlast (drop 2 m) in
           if truthy (host variable) then Inr (lib_re_sub l (the (host variable)) s)
           else Inr s))"

text \<open>\<open>CctArtifact.__init__(name, chksum, url)\<close>.\<close>

definition CctArtifact_init :: "lib \<Rightarrow> environ \<Rightarrow> string \<Rightarrow> string \<Rightarrow> string \<Rightarrow> exn + CctArtifact" where
  "CctArtifact_init l host name chksum url =
     (case (if CHR ''$'' \<in> set url then artifact_replace_variables l host url else Inr url) of
        Inl e \<Rightarrow> Inl e
      | Inr url' \<Rightarrow>
          Inr \<lparr>art_name = name, art_chksum = chksum, art_url = url', art_filename = name,
               art_path = None\<rparr>)"

text \<open>
  \<open>CctArtifact(**artifact)\<close> for an entry of the manifest, a dictionary given by its items:
  the call raises \<open>TypeError\<close> unless the keys are exactly \<open>name\<close>, \<open>chksum\<close> and \<open>url\<close>.
\<close>

definition CctArtifact_kwargs :: "lib \<Rightarrow> environ \<Rightarrow> (string \<times> string) list \<Rightarrow> exn + CctArtifact" where
  "CctArtifact_kwargs l host artifact =
     (if set (map fst artifact) = set [''name'', ''chksum'', ''url''] then
        CctArtifact_init l host (the (map_of artifact ''name'')) (the (map_of artifact ''chksum''))
          (the (map_of artifact ''url''))
      else Inl TypeError)"

text \<open>\<open>os.path.join(a, b)\<close>.\<close>

definition path_join :: "string \<Rightarrow> string \<Rightarrow> string" where
  "path_join a b =
     (if prefix ''/'' b then b
      else if a = [] \<or> last a = CHR ''/'' then a @ b
      else a @ ''/'' @ b)"

text \<open>
  \<open>CctArtifact.check_sum()\<close> on the files given: \<open>chksum.index(':')\<close> raises \<open>ValueError\<close>
  without a colon, \<open>getattr(hashlib, ...)\<close> raises \<open>AttributeError\<close> for an unknown algorithm.
\<close>

definition check_sum :: "lib \<Rightarrow> (string \<rightharpoonup> string) \<Rightarrow> CctArtifact \<Rightarrow> exn + bool" where
  "check_sum l files a =
     (case art_path a of
        None \<Rightarrow> Inl TypeError
      | Some p \<Rightarrow>
          (case files p of
             None \<Rightarrow> Inr False
           | Some content \<Rightarrow>
               if CHR '':'' \<notin> set (art_chksum a) then Inl ValueError
               else
                 (case lib_hashlib l (takeWhile (\<lambda>c. c \<noteq> CHR '':'') (art_chksum a)) of
                    None \<Rightarrow> Inl AttributeError
                  | Some h \<Rightarrow>
                      Inr (drop 1 (dropWhile (\<lambda>c. c \<noteq> CHR '':'') (art_chksum a)) = h content))))"

text \<open>
  \<open>CctArtifact.fetch(directory)\<close>: the exception raised if any, the artifact (its \<open>path\<close>
  set) and the world as left.
\<close>

definition fetch :: "lib \<Rightarrow> string \<Rightarrow> CctArtifact \<Rightarrow> world \<Rightarrow> exn option \<times> CctArtifact \<times> world" where
  "fetch l directory a w =
     (let p = path_join directory (art_filename a);
          a1 = a\<lparr>art_path := Some p\<rparr>
      in case check_sum l (w_files w) a1 of
           Inl e \<Rightarrow> (Some e, a1, w)
         | Inr True \<Rightarrow> (None, a1, w)
         | Inr False \<Rightarrow>
             (case lib_urlretrieve l (art_url a1) of
                Inl ex \<Rightarrow>
                  (Some (CCTError (''Cannot download artifact from url '' @ art_url a1
                     @ '', error: '' @ lib_str l ex)),
                   a1, w\<lparr>w_downloads := w_downloads w @ [(art_url a1, p)]\<rparr>)
              | Inr content \<Rightarrow>
                  (let w1 = w\<lparr>w_files := (w_files w)(p \<mapsto> content),
                               w_downloads := w_downloads w @ [(art_url a1, p)]\<rparr>
                   in case check_sum l (w_files w1) a1 of
                        Inl e \<Rightarrow> (Some e, a1, w1)
                      | Inr True \<Rightarrow> (None, a1, w1)
                      | Inr False \<Rightarrow>
                          (Some (CCTError (''Artifact from '' @ art_url a1
                             @ '' doesn'' @ [CHR 0x27] @ ''t match required chksum '' @ art_chksum a1)),
                           a1, w1))))"

text \<open>\<open>Module._get_artifacts(artifacts, destination)\<close>.\<close>

fun get_artifacts ::
  "lib \<Rightarrow> environ \<Rightarrow> (string \<times> string) list list \<Rightarrow> string \<Rightarrow> world \<Rightarrow> exn option \<times> world" where
  "get_artifacts l host [] destination w = (None, w)"
| "get_artifacts l host (artifact # rest) destination w =
     (case CctArtifact_kwargs l host artifact of
        Inl e \<Rightarrow> (Some e, w)
      | Inr cct_artifact \<Rightarrow>
          (case fetch l destination cct_artifact w of
             (Some e, a1, w1) \<Rightarrow> (Some e, w1)
           | (None, a1, w1) \<Rightarrow>
               get_artifacts l host rest destination
                 (w1\<lparr>w_artifacts := (w_artifacts w1)(art_name a1 \<mapsto> a1)\<rparr>)))"

text \<open>
  A library with one URL that answers and one toy digest, a manifest entry for it, and an
  empty world.
\<close>

definition example_lib :: lib where
  "example_lib =
     \<lparr>lib_urlretrieve = (\<lambda>u. if u = ''http://host/a.jar'' then Inr ''bytes'' else Inl IOError),
      lib_hashlib = (\<lambda>n. if n = ''md5'' then Some (\<lambda>content. ''00'') else None),
      lib_re_search = (\<lambda>s. None),
      lib_re_sub = (\<lambda>r s. s),
      lib_str = (\<lambda>e. [])\<rparr>"

definition example_artifact :: "(string \<times> string) list" where
  "example_artifact = [(''name'', ''a.jar''), (''chksum'', ''md5:ff''), (''url'', ''http://host/a.jar'')]"

definition empty_world :: world where
  "empty_world = \<lparr>w_files = Map.empty, w_downloads = [], w_artifacts = Map.empty\<rparr>"

section \<open>Environment resolution with empty values\<close>

lemma truthy_simps [simp]:
  "truthy None = False" "truthy (Some s) = (s \<noteq> [])"
  by (simp_all add: truthy_def)

text \<open>
  C10. A host variable set to the empty string counts as absent. \<open>getenv\<close> then returns the
  module-local value whenever the name is a key of the module mapping (an empty value
  included), and the default otherwise. Substitution skips an empty host value and an empty
  module value alike: when each of the two is unset or empty the token stays as it is, and
  an empty host value gives way to a non-empty module value.
\<close>

theorem empty_host_value_is_absent:
  assumes "host name = Some []"
  shows "getenv host environment name dflt =
           (case environment name of Some v \<Rightarrow> Some v | None \<Rightarrow> dflt)
         \<and> replace_token host environment (CHR ''$'' # name) =
           (case environment name of
              None \<Rightarrow> CHR ''$'' # name
            | Some v \<Rightarrow> if v = [] then CHR ''$'' # name else v)"
  using assms by (auto simp: getenv_def replace_token_def split: option.splits)

theorem empty_host_value_is_absent_witness:
  "getenv [''FOO'' \<mapsto> ''''] [''FOO'' \<mapsto> ''''] ''FOO'' (Some ''dflt'') = Some ''''
   \<and> replace_token [''FOO'' \<mapsto> ''''] [''FOO'' \<mapsto> ''''] ''$FOO'' = ''$FOO''
   \<and> getenv [''FOO'' \<mapsto> ''''] Map.empty ''FOO'' (Some ''dflt'') = Some ''dflt''
   \<and> replace_token [''FOO'' \<mapsto> ''''] [''FOO'' \<mapsto> ''baz''] ''$FOO'' = ''baz''"
  using empty_host_value_is_absent [of "[''FOO'' \<mapsto> '''']" "''FOO''" "[''FOO'' \<mapsto> '''']" "Some ''dflt''"]
    empty_host_value_is_absent [of "[''FOO'' \<mapsto> '''']" "''FOO''" "Map.empty" "Some ''dflt''"]
    empty_host_value_is_absent [of "[''FOO'' \<mapsto> '''']" "''FOO''" "[''FOO'' \<mapsto> ''baz'']" "Some ''dflt''"]
  by simp

section \<open>Variable substitution, token by token\<close>

lemma split_char_nonempty: "split_char c s \<noteq> []"
  by (induction s) (auto split: list.splits)

lemma foldl_append_concat:
  "foldl (\<lambda>result token. result @ f token) acc ts = acc @ concat (map f ts)"
  by (induction ts arbitrary: acc) auto

lemma replace_variables_concat:
  "replace_variables host environment s =
     concat (map (\<lambda>t. replace_token host environment t @ '' '') (split_char CHR '' '' s))"
  unfolding replace_variables_def by (simp add: foldl_append_concat)

lemma concat_sep_join:
  "ts \<noteq> [] \<Longrightarrow> concat (map (\<lambda>t. f t @ '' '') ts) = join_sp (map f ts) @ '' ''"
  by (induction ts rule: induct_list012) auto

lemma replace_variables_join:
  "replace_variables host environment s =
     join_sp (map (replace_token host environment) (split_char CHR '' '' s)) @ '' ''"
  by (simp add: replace_variables_concat concat_sep_join split_char_nonempty)

lemma replace_variables_last:
  "replace_variables host environment s \<noteq> [] \<and>
   last (replace_variables host environment s) = CHR '' ''"
  by (simp add: replace_variables_join)

text \<open>
  C2, as the code has it. The input is cut at every single space character (and at no
  other blank). A piece \<open>$v\<close> becomes the host value of \<open>v\<close> when that is set and not empty,
  else the module-local value of \<open>v\<close> when that is set and not empty, else it stays as it
  is; a piece that does not start with \<open>$\<close> stays as it is. The result is these pieces
  joined by single spaces, followed by nothing but spaces.
\<close>

theorem replace_variables_tokens:
  "(\<exists>ws. set ws \<subseteq> {CHR '' ''} \<and>
      replace_variables host environment s =
        join_sp (map (replace_token host environment) (split_char CHR '' '' s)) @ ws)
   \<and> (host v = Some x \<and> x \<noteq> [] \<longrightarrow> replace_token host environment (CHR ''$'' # v) = x)
   \<and> (\<not> truthy (host v) \<and> environment v = Some y \<and> y \<noteq> [] \<longrightarrow>
        replace_token host environment (CHR ''$'' # v) = y)
   \<and> (\<not> truthy (host v) \<and> \<not> truthy (environment v) \<longrightarrow>
        replace_token host environment (CHR ''$'' # v) = CHR ''$'' # v)
   \<and> ((\<forall>u. t \<noteq> CHR ''$'' # u) \<longrightarrow> replace_token host environment t = t)"
proof -
  have "\<exists>ws. set ws \<subseteq> {CHR '' ''} \<and>
      replace_variables host environment s =
        join_sp (map (replace_token host environment) (split_char CHR '' '' s)) @ ws"
    by (rule exI [of _ "'' ''"]) (simp add: replace_variables_join)
  moreover have "(\<forall>u. t \<noteq> CHR ''$'' # u) \<longrightarrow> replace_token host environment t = t"
    by (cases t) (auto simp: replace_token_def)
  ultimately show ?thesis
    by (simp add: replace_token_def)
qed

theorem replace_variables_tokens_witness:
  "replace_token [''FOO'' \<mapsto> ''bar''] [''FOO'' \<mapsto> ''baz''] ''$FOO'' = ''bar''
   \<and> replace_token Map.empty Map.empty ''$FOO'' = ''$FOO''
   \<and> replace_token Map.empty [''FOO'' \<mapsto> ''baz''] ''$FOO'' = ''baz''
   \<and> replace_token Map.empty Map.empty ''FOO'' = ''FOO''
   \<and> (\<exists>ws. set ws \<subseteq> {CHR '' ''} \<and>
         replace_variables [''FOO'' \<mapsto> ''bar''] [''FOO'' \<mapsto> ''baz''] ''$FOO'' = ''bar'' @ ws)"
  using replace_variables_tokens [of "[''FOO'' \<mapsto> ''bar'']" "[''FOO'' \<mapsto> ''baz'']" "''$FOO''" "''FOO''" "''bar''" "''baz''" "''FOO''"]
    replace_variables_tokens [of Map.empty Map.empty "''$FOO''" "''FOO''" "''bar''" "''baz''" "''FOO''"]
    replace_variables_tokens [of Map.empty "[''FOO'' \<mapsto> ''baz'']" "''$FOO''" "''FOO''" "''bar''" "''baz''" "''FOO''"]
  by (simp add: replace_token_def)

text \<open>
  Where the code leaves C2 as stated: with neither variable set the result of substituting
  \<open>$FOO\<close> is not the string \<open>$FOO\<close>; a host variable that is set, to the empty string, is
  passed over for the module-local one; and a token after a tab is not a token.
\<close>

theorem replace_variables_counterexample:
  "replace_variables Map.empty Map.empty ''$FOO'' \<noteq> ''$FOO''
   \<and> replace_variables [''FOO'' \<mapsto> []] [''FOO'' \<mapsto> ''baz''] ''$FOO'' = ''baz ''
   \<and> replace_variables [''FOO'' \<mapsto> ''bar''] Map.empty (''a'' @ [CHR 0x09] @ ''$FOO'')
       = ''a'' @ [CHR 0x09] @ ''$FOO ''"
  by (simp add: replace_variables_def replace_token_def)

section \<open>Argument binding\<close>

lemma map_add_snoc:
  "kw ++ map_of (A @ [(k, v)]) = kw(k \<mapsto> v) ++ map_of A"
proof -
  have "kw ++ map_of (A @ [(k, v)]) = (kw ++ [k \<mapsto> v]) ++ map_of A"
    by (simp only: map_of_append map_add_assoc) simp
  then show ?thesis by simp
qed

lemma foldl_bind_generic:
  "foldl (\<lambda>acc x. case acc of (a, kw) \<Rightarrow>
       if P x then (a, kw(K x \<mapsto> V x)) else (a @ [S x], kw)) (a, kw) xs =
     (a @ map S (filter (\<lambda>x. \<not> P x) xs),
      kw ++ map_of (rev (map (\<lambda>x. (K x, V x)) (filter P xs))))"
  by (induction xs arbitrary: a kw) (simp_all add: map_add_snoc)

lemma bind_arg_eq:
  "bind_arg ps = (\<lambda>acc x. case acc of (a, kw) \<Rightarrow>
      if is_named ps x then (a, kw(arg_key x \<mapsto> arg_value x)) else (a @ [strip x], kw))"
  by (intro ext) (simp add: bind_arg_def is_named_def Let_def split: prod.splits)

lemma bind_args_eq:
  "bind_args ps as =
     (map strip [x \<leftarrow> as. \<not> is_named ps x],
      map_of (rev (map (\<lambda>x. (arg_key x, arg_value x)) [x \<leftarrow> as. is_named ps x])))"
  unfolding bind_args_def bind_arg_eq foldl_bind_generic by simp

text \<open>
  C7, as the code has it. For a capability that declares \<open>port\<close>, the arguments
  \<open>["port=8080", "extra"]\<close> bind \<open>port="8080"\<close> by name and \<open>"extra"\<close> by position. In
  general a token with \<open>=\<close> whose key (the text before the first \<open>=\<close>) is a declared
  parameter is bound by name to the text after the first \<open>=\<close>, the last such token for a
  key winning; every other token is positional, in order, with the blanks at both its ends
  removed.
\<close>

theorem bind_args_binding:
  "(''port'' \<in> set ps \<longrightarrow>
      bind_args ps [''port=8080'', ''extra''] = ([''extra''], [''port'' \<mapsto> ''8080'']))
   \<and> fst (bind_args ps as) = map strip [x \<leftarrow> as. \<not> is_named ps x]
   \<and> snd (bind_args ps as) =
       map_of (rev (map (\<lambda>x. (arg_key x, arg_value x)) [x \<leftarrow> as. is_named ps x]))
   \<and> is_named ps x = (CHR ''='' \<in> set x \<and> arg_key x \<in> set ps)
   \<and> (CHR ''='' \<in> set x \<longrightarrow> x = arg_key x @ ''='' @ arg_value x \<and> CHR ''='' \<notin> set (arg_key x))"
proof -
  have "x = arg_key x @ ''='' @ arg_value x" if "CHR ''='' \<in> set x"
  proof -
    from that have "dropWhile (\<lambda>c. c \<noteq> CHR ''='') x \<noteq> []" by simp
    moreover have "hd (dropWhile (\<lambda>c. c \<noteq> CHR ''='') x) = CHR ''=''"
      using that hd_dropWhile [of "\<lambda>c. c \<noteq> CHR ''=''" x] by simp
    ultimately have "dropWhile (\<lambda>c. c \<noteq> CHR ''='') x = CHR ''='' # arg_value x"
      by (cases "dropWhile (\<lambda>c. c \<noteq> CHR ''='') x") (auto simp: arg_value_def)
    then show ?thesis
      using takeWhile_dropWhile_id [of "\<lambda>c. c \<noteq> CHR ''=''" x] by (simp add: arg_key_def)
  qed
  moreover have "CHR ''='' \<notin> set (arg_key x)"
    unfolding arg_key_def by (auto dest: set_takeWhileD)
  ultimately show ?thesis
    by (simp add: bind_args_eq) (simp add: is_named_def arg_key_def arg_value_def strip_def
        lstrip_def rstrip_def is_space_def)
qed

theorem bind_args_binding_witness:
  "bind_args [''self'', ''port''] [''port=8080'', ''extra''] = ([''extra''], [''port'' \<mapsto> ''8080''])
   \<and> fst (bind_args [''self'', ''port''] [''host=h'', ''port=1'', '' a '', ''port=2'']) = [''host=h'', ''a'']
   \<and> snd (bind_args [''self'', ''port''] [''host=h'', ''port=1'', '' a '', ''port=2'']) = [''port'' \<mapsto> ''2'']"
  using bind_args_binding [of "[''self'', ''port'']" "[''port=8080'', ''extra'']" "''port=8080''"]
    bind_args_binding [of "[''self'', ''port'']" "[''host=h'', ''port=1'', '' a '', ''port=2'']" "''port=1''"]
  by (simp add: is_named_def arg_key_def arg_value_def strip_def lstrip_def rstrip_def is_space_def)

text \<open>
  Where the code leaves C7 as stated: a token with \<open>=\<close> whose key is not a declared
  parameter is not passed whole when it starts with a blank.
\<close>

theorem bind_args_counterexample:
  "bind_args [''port''] ['' x=1''] = ([''x=1''], Map.empty)
   \<and> fst (bind_args [''port''] ['' x=1'']) \<noteq> ['' x=1'']"
  by (simp add: bind_args_def bind_arg_def arg_key_def arg_value_def strip_def lstrip_def
      rstrip_def is_space_def)

section \<open>The runner\<close>

lemma process_environment_world [simp]:
  "process_environment host (inst\<lparr>inst_world := w\<rparr>) operation = process_environment host inst operation"
  by (simp add: process_environment_def)

lemma reserved_no_space: "c \<in> set reserved \<Longrightarrow> c \<noteq> [] \<and> last c \<noteq> CHR '' ''"
  by (auto simp: reserved_def)

lemma process_environment_not_reserved:
  assumes "op_command operation \<notin> set reserved"
  shows "op_command (process_environment host inst operation) \<notin> set reserved"
proof (cases "CHR ''$'' \<in> set (op_command operation)")
  case True
  then have "op_command (process_environment host inst operation) =
      replace_variables host (inst_environment inst) (op_command operation)"
    by (simp add: process_environment_def)
  then show ?thesis
    using replace_variables_last [of host "inst_environment inst" "op_command operation"]
      reserved_no_space by metis
next
  case False
  then show ?thesis using assms by (simp add: process_environment_def)
qed

lemma module_run_events:
  "module_run inst operation = (r, inst', operation', evs) \<Longrightarrow>
     (\<forall>ev \<in> set evs. \<exists>a kw. ev = EvCall (op_command operation) a kw)"
  by (auto simp: module_run_def split: sum.splits prod.splits option.splits)

lemma run_operations_events:
  "run_operations host st inst ops = (r, st', inst', ops', evs) \<Longrightarrow>
     (\<forall>ev \<in> set evs. \<forall>c. ev_command ev = Some c \<longrightarrow> c \<notin> set reserved)"
proof (induction ops arbitrary: st inst r st' inst' ops' evs)
  case Nil
  then show ?case by simp
next
  case (Cons operation rest)
  show ?case
  proof (cases "op_command operation \<in> set reserved")
    case True
    with Cons.prems Cons.IH show ?thesis
      by (auto split: prod.splits)
  next
    case False
    define op1 where "op1 = process_environment host inst operation"
    have nr: "op_command op1 \<notin> set reserved"
      unfolding op1_def using False by (rule process_environment_not_reserved)
    obtain r1 inst1 op2 evs1 where mr: "module_run inst op1 = (r1, inst1, op2, evs1)"
      by (cases "module_run inst op1") auto
    from module_run_events [OF mr] nr
    have e1: "\<forall>ev \<in> set evs1. \<forall>c. ev_command ev = Some c \<longrightarrow> c \<notin> set reserved"
      by (auto simp: ev_command_def)
    show ?thesis
    proof (cases r1)
      case (Some e)
      with Cons.prems False mr e1 nr show ?thesis
        by (auto simp: op1_def [symmetric] Let_def ev_command_def)
    next
      case None
      obtain r2 st2 inst2 rest2 evs2 where
        rec: "run_operations host Passed inst1 rest = (r2, st2, inst2, rest2, evs2)"
        by (cases "run_operations host Passed inst1 rest") auto
      from Cons.IH [OF rec]
      have e2: "\<forall>ev \<in> set evs2. \<forall>c. ev_command ev = Some c \<longrightarrow> c \<notin> set reserved" .
      from Cons.prems False mr None rec
      have "evs = EvRun (op_command op1) (op_args op1) # evs1 @ evs2"
        by (simp add: op1_def [symmetric] Let_def)
      with e1 e2 nr show ?thesis
        by (auto simp: ev_command_def)
    qed
  qed
qed

lemma run_operations_reserved_kept:
  "run_operations host st inst ops = (r, st', inst', ops', evs) \<Longrightarrow>
     length ops' = length ops \<and>
     (\<forall>i < length ops. op_command (ops ! i) \<in> set reserved \<longrightarrow> ops' ! i = ops ! i)"
proof (induction ops arbitrary: st inst r st' inst' ops' evs)
  case Nil
  then show ?case by simp
next
  case (Cons operation rest)
  show ?case
  proof (cases "op_command operation \<in> set reserved")
    case True
    obtain r2 st2 inst2 rest2 evs2 where
      rec: "run_operations host st inst rest = (r2, st2, inst2, rest2, evs2)"
      by (cases "run_operations host st inst rest") auto
    from Cons.prems True rec have "ops' = operation # rest2" by simp
    with Cons.IH [OF rec] show ?thesis
      by (auto simp: nth_Cons split: nat.splits)
  next
    case False
    define op1 where "op1 = process_environment host inst operation"
    obtain r1 inst1 op2 evs1 where mr: "module_run inst op1 = (r1, inst1, op2, evs1)"
      by (cases "module_run inst op1") auto
    show ?thesis
    proof (cases r1)
      case (Some e)
      with Cons.prems False mr have "ops' = op2 # rest"
        by (simp add: op1_def [symmetric] Let_def)
      with False show ?thesis by (auto simp: nth_Cons split: nat.splits)
    next
      case None
      obtain r2 st2 inst2 rest2 evs2 where
        rec: "run_operations host Passed inst1 rest = (r2, st2, inst2, rest2, evs2)"
        by (cases "run_operations host Passed inst1 rest") auto
      from Cons.prems False mr None rec have "ops' = op2 # rest2"
        by (simp add: op1_def [symmetric] Let_def)
      with Cons.IH [OF rec] False show ?thesis
        by (auto simp: nth_Cons split: nat.splits)
    qed
  qed
qed


text \<open>
  C9. Whatever a run does, no \<open>instance.run\<close> call and no capability call it makes is for a
  command that is one of the reserved names, and every declared operation whose command is
  a reserved name is left in the operation list exactly as it was (skipped, its state
  untouched), whatever the instance's \<open>getattr\<close> would resolve that name to.
\<close>

theorem reserved_never_dispatched:
  assumes "runner_run host rn = (r, rn', evs)"
  shows "(\<forall>ev \<in> set evs. \<forall>c a kw. ev = EvRun c a \<or> ev = EvCall c a kw \<longrightarrow> c \<notin> set reserved)
    \<and> length (mod_operations (runner_module rn')) = length (mod_operations (runner_module rn))
    \<and> (\<forall>i < length (mod_operations (runner_module rn)).
          op_command (mod_operations (runner_module rn) ! i) \<in> set reserved \<longrightarrow>
          mod_operations (runner_module rn') ! i = mod_operations (runner_module rn) ! i)"
proof -
  define m where "m = runner_module rn"
  define inst where "inst = mod_instance m"
  obtain r0 w0 where su: "inst_setup inst (inst_world inst) = (r0, w0)"
    by (cases "inst_setup inst (inst_world inst)") auto
  show ?thesis
  proof (cases r0)
    case (Some e)
    with assms su show ?thesis
      by (auto simp: runner_run_def Let_def m_def [symmetric] inst_def [symmetric])
  next
    case None
    obtain r1 st1 inst1 ops1 evs1 where
      lp: "run_operations host (runner_state rn) (inst\<lparr>inst_world := w0\<rparr>) (mod_operations m)
            = (r1, st1, inst1, ops1, evs1)"
      by (cases "run_operations host (runner_state rn) (inst\<lparr>inst_world := w0\<rparr>) (mod_operations m)") auto
    from run_operations_events [OF lp]
    have e1: "\<forall>ev \<in> set evs1. \<forall>c. ev_command ev = Some c \<longrightarrow> c \<notin> set reserved" .
    from run_operations_reserved_kept [OF lp]
    have k1: "length ops1 = length (mod_operations m)"
      "\<forall>i < length (mod_operations m). op_command (mod_operations m ! i) \<in> set reserved \<longrightarrow>
          ops1 ! i = mod_operations m ! i" by auto
    have ops': "mod_operations (runner_module rn') = ops1"
      and evs': "set evs \<subseteq> {EvSetup, EvTeardown} \<union> set evs1"
      using assms su None lp
      by (auto simp: runner_run_def Let_def m_def [symmetric] inst_def [symmetric]
          split: option.splits prod.splits)
    have "\<forall>ev \<in> set evs. \<forall>c a kw. ev = EvRun c a \<or> ev = EvCall c a kw \<longrightarrow> c \<notin> set reserved"
    proof (intro ballI allI impI)
      fix ev c a kw
      assume "ev \<in> set evs" and ev: "ev = EvRun c a \<or> ev = EvCall c a kw"
      with evs' have "ev \<in> set evs1" by auto
      moreover from ev have "ev_command ev = Some c" by (auto simp: ev_command_def)
      ultimately show "c \<notin> set reserved" using e1 by blast
    qed
    with k1 ops' show ?thesis by (simp add: m_def)
  qed
qed


lemmas run_eval = runner_run_def ModuleRunner_def dump_module_def dump_instance_def Operation_def
  reserved_def process_environment_def module_run_def bind_args_def bind_arg_def arg_key_def
  arg_value_def strip_def lstrip_def rstrip_def is_space_def Let_def

lemma dump_run:
  "runner_run Map.empty (ModuleRunner (dump_module [Operation ''setup'' None, Operation ''dump'' (Some [''x ''])]))
   = (None,
      \<lparr>runner_module = dump_module [Operation ''setup'' None, (Operation ''dump'' (Some [''x'']))\<lparr>op_state := Passed\<rparr>],
       runner_state = Passed\<rparr>,
      [EvSetup, EvRun ''dump'' [''x''], EvCall ''dump'' [''x''] Map.empty, EvTeardown])"
  by (simp add: run_eval)

theorem reserved_never_dispatched_witness:
  "\<exists>rn' evs.
     runner_run Map.empty
       (ModuleRunner (dump_module [Operation ''setup'' None, Operation ''dump'' (Some [''x ''])]))
       = (None, rn', evs)
     \<and> EvRun ''dump'' [''x''] \<in> set evs
     \<and> EvRun ''setup'' [] \<notin> set evs
     \<and> mod_operations (runner_module rn') ! 0 = Operation ''setup'' None"
proof -
  have "''setup'' \<in> set reserved" by (simp add: reserved_def)
  with reserved_never_dispatched [OF dump_run] show ?thesis
    unfolding dump_run by (auto simp: dump_module_def)
qed

text \<open>
  C1. The operation list is \<open>[A, B, C]\<close>, \<open>setup\<close> returns, \<open>A\<close> and \<open>B\<close> are not reserved
  names, \<open>A\<close> (after substitution, \<open>A1\<close>) resolves to a capability that returns, and \<open>B\<close>
  (after substitution, \<open>B1\<close>) fails in dispatch: its command resolves to no capability, or
  the capability raises \<open>e\<close>. Then the run raises that same \<open>e\<close>; \<open>A\<close> is left Passed, \<open>B\<close>
  Error, \<open>C\<close> untouched; the instance's state and the runner's state are Error; and the
  events are \<open>setup\<close>, the run and call of \<open>A\<close>, the run of \<open>B\<close> (and its call, when it got
  that far): nothing for \<open>C\<close>, and no \<open>teardown\<close>.
\<close>

theorem failing_operation_stops_run:
  fixes inst :: "'w module_instance"
  assumes su: "inst_setup inst (inst_world inst) = (None, w0)"
    and A: "op_command A \<notin> set reserved"
    and A1: "A1 = process_environment host inst A"
    and getA: "inst_getattr inst (op_command A1) = Inr mA"
    and bindA: "bind_args (meth_args mA) (op_args A1) = (pa, ka)"
    and callA: "meth_call mA pa ka w0 = (None, w1)"
    and B: "op_command B \<notin> set reserved"
    and B1: "B1 = process_environment host inst B"
    and failB:
      "(inst_getattr inst (op_command B1) = Inl e \<and> w2 = w1 \<and> evB = [])
       \<or> (\<exists>mB pb kb. inst_getattr inst (op_command B1) = Inr mB
             \<and> bind_args (meth_args mB) (op_args B1) = (pb, kb)
             \<and> meth_call mB pb kb w1 = (Some e, w2)
             \<and> evB = [EvCall (op_command B1) pb kb])"
  shows "runner_run host
           \<lparr>runner_module = \<lparr>mod_name = n, mod_operations = [A, B, C], mod_instance = inst,
               mod_state = ms\<rparr>, runner_state = rs\<rparr>
         = (Some e,
            \<lparr>runner_module = \<lparr>mod_name = n,
               mod_operations = [A1\<lparr>op_state := Passed\<rparr>, B1\<lparr>op_state := Error\<rparr>, C],
               mod_instance = inst\<lparr>inst_world := w2, inst_state := Error\<rparr>,
               mod_state = ms\<rparr>, runner_state = Error\<rparr>,
            [EvSetup, EvRun (op_command A1) (op_args A1), EvCall (op_command A1) pa ka,
             EvRun (op_command B1) (op_args B1)] @ evB)"
proof -
  have mrA: "module_run (inst\<lparr>inst_world := w0\<rparr>) A1 =
      (None, inst\<lparr>inst_world := w1\<rparr>, A1\<lparr>op_state := Passed\<rparr>, [EvCall (op_command A1) pa ka])"
    using getA bindA callA by (simp add: module_run_def)
  have mrB: "module_run (inst\<lparr>inst_world := w1\<rparr>) B1 =
      (Some e, inst\<lparr>inst_world := w2, inst_state := Error\<rparr>, B1\<lparr>op_state := Error\<rparr>, evB)"
    using failB by (auto simp: module_run_def)
  have loop: "run_operations host rs (inst\<lparr>inst_world := w0\<rparr>) [A, B, C] =
      (Some e, Error, inst\<lparr>inst_world := w2, inst_state := Error\<rparr>,
       [A1\<lparr>op_state := Passed\<rparr>, B1\<lparr>op_state := Error\<rparr>, C],
       [EvRun (op_command A1) (op_args A1), EvCall (op_command A1) pa ka,
        EvRun (op_command B1) (op_args B1)] @ evB)"
    using A B mrA mrB by (simp add: A1 [symmetric] B1 [symmetric] Let_def)
  show ?thesis
    using su loop by (simp add: runner_run_def Let_def)
qed


theorem failing_operation_stops_run_witness:
  "runner_run Map.empty
     (ModuleRunner (dump_module [Operation ''dump'' (Some [''a'']), Operation ''nosuch'' (Some [''b'']),
        Operation ''dump'' (Some [''c''])]))
   = (Some AttributeError,
      \<lparr>runner_module = \<lparr>mod_name = ''base.Dummy'',
         mod_operations = [(Operation ''dump'' (Some [''a'']))\<lparr>op_state := Passed\<rparr>,
           (Operation ''nosuch'' (Some [''b'']))\<lparr>op_state := Error\<rparr>,
           Operation ''dump'' (Some [''c''])],
         mod_instance = dump_instance\<lparr>inst_world := (), inst_state := Error\<rparr>,
         mod_state = NotRun\<rparr>, runner_state = Error\<rparr>,
      [EvSetup, EvRun ''dump'' [''a''], EvCall ''dump'' [''a''] Map.empty, EvRun ''nosuch'' [''b'']])
   \<and> runner_run Map.empty
     (ModuleRunner (dump_module [Operation ''dump'' (Some [''a'']), Operation ''dump'' (Some [''self=b'']),
        Operation ''dump'' (Some [''c''])]))
   = (Some TypeError,
      \<lparr>runner_module = \<lparr>mod_name = ''base.Dummy'',
         mod_operations = [(Operation ''dump'' (Some [''a'']))\<lparr>op_state := Passed\<rparr>,
           (Operation ''dump'' (Some [''self=b'']))\<lparr>op_state := Error\<rparr>,
           Operation ''dump'' (Some [''c''])],
         mod_instance = dump_instance\<lparr>inst_world := (), inst_state := Error\<rparr>,
         mod_state = NotRun\<rparr>, runner_state = Error\<rparr>,
      [EvSetup, EvRun ''dump'' [''a''], EvCall ''dump'' [''a''] Map.empty, EvRun ''dump'' [''self=b''],
       EvCall ''dump'' [] [''self'' \<mapsto> ''b'']])"
proof -
  let ?dump = "\<lparr>meth_args = [''self''],
      meth_call = (\<lambda>a kw w. if dom kw = {} then (None, w) else (Some TypeError, w :: unit))\<rparr>"
  have 1: ?thesis if "P \<and> Q" and "P \<Longrightarrow> Q \<Longrightarrow> ?thesis" for P Q
    using that by blast
  note th1 = failing_operation_stops_run [where inst = dump_instance and host = Map.empty
      and A = "Operation ''dump'' (Some [''a''])" and ?A1.0 = "Operation ''dump'' (Some [''a''])"
      and B = "Operation ''nosuch'' (Some [''b''])" and ?B1.0 = "Operation ''nosuch'' (Some [''b''])"
      and C = "Operation ''dump'' (Some [''c''])" and mA = ?dump and pa = "[''a'']" and ka = Map.empty
      and ?w0.0 = "()" and ?w1.0 = "()" and ?w2.0 = "()" and e = AttributeError and evB = "[]"
      and n = "''base.Dummy''" and ms = NotRun and rs = Processing]
  note th2 = failing_operation_stops_run [where inst = dump_instance and host = Map.empty
      and A = "Operation ''dump'' (Some [''a''])" and ?A1.0 = "Operation ''dump'' (Some [''a''])"
      and B = "Operation ''dump'' (Some [''self=b''])" and ?B1.0 = "Operation ''dump'' (Some [''self=b''])"
      and C = "Operation ''dump'' (Some [''c''])" and mA = ?dump and pa = "[''a'']" and ka = Map.empty
      and ?w0.0 = "()" and ?w1.0 = "()" and ?w2.0 = "()" and e = TypeError
      and evB = "[EvCall ''dump'' [] [''self'' \<mapsto> ''b'']]"
      and n = "''base.Dummy''" and ms = NotRun and rs = Processing]
  have a: "runner_run Map.empty
     (ModuleRunner (dump_module [Operation ''dump'' (Some [''a'']), Operation ''nosuch'' (Some [''b'']),
        Operation ''dump'' (Some [''c''])])) = (Some AttributeError,
      \<lparr>runner_module = \<lparr>mod_name = ''base.Dummy'',
         mod_operations = [(Operation ''dump'' (Some [''a'']))\<lparr>op_state := Passed\<rparr>,
           (Operation ''nosuch'' (Some [''b'']))\<lparr>op_state := Error\<rparr>,
           Operation ''dump'' (Some [''c''])],
         mod_instance = dump_instance\<lparr>inst_world := (), inst_state := Error\<rparr>,
         mod_state = NotRun\<rparr>, runner_state = Error\<rparr>,
      [EvSetup, EvRun ''dump'' [''a''], EvCall ''dump'' [''a''] Map.empty, EvRun ''nosuch'' [''b'']])"
    using th1
    by (simp add: ModuleRunner_def dump_module_def dump_instance_def Operation_def reserved_def
        process_environment_def bind_args_def bind_arg_def strip_def lstrip_def rstrip_def is_space_def)
  have b: "runner_run Map.empty
     (ModuleRunner (dump_module [Operation ''dump'' (Some [''a'']), Operation ''dump'' (Some [''self=b'']),
        Operation ''dump'' (Some [''c''])]))
   = (Some TypeError,
      \<lparr>runner_module = \<lparr>mod_name = ''base.Dummy'',
         mod_operations = [(Operation ''dump'' (Some [''a'']))\<lparr>op_state := Passed\<rparr>,
           (Operation ''dump'' (Some [''self=b'']))\<lparr>op_state := Error\<rparr>,
           Operation ''dump'' (Some [''c''])],
         mod_instance = dump_instance\<lparr>inst_world := (), inst_state := Error\<rparr>,
         mod_state = NotRun\<rparr>, runner_state = Error\<rparr>,
      [EvSetup, EvRun ''dump'' [''a''], EvCall ''dump'' [''a''] Map.empty, EvRun ''dump'' [''self=b''],
       EvCall ''dump'' [] [''self'' \<mapsto> ''b'']])"
    using th2
    by (simp add: ModuleRunner_def dump_module_def dump_instance_def Operation_def reserved_def
        process_environment_def bind_args_def bind_arg_def arg_key_def arg_value_def strip_def
        lstrip_def rstrip_def is_space_def)
  from a b show ?thesis by (rule conjI)
qed


lemma module_run_success:
  "module_run inst operation = (None, inst', operation', evs) \<Longrightarrow>
     inst_state inst' = inst_state inst \<and> op_state operation' = Passed"
  by (auto simp: module_run_def split: sum.splits prod.splits option.splits)

lemma run_operations_success:
  "run_operations host st inst ops = (None, st', inst', ops', evs) \<Longrightarrow>
     inst_state inst' = inst_state inst \<and> EvTeardown \<notin> set evs \<and> EvSetup \<notin> set evs \<and>
     (\<forall>operation \<in> set ops'. op_command operation \<in> set reserved \<or> op_state operation = Passed)"
proof (induction ops arbitrary: st inst st' inst' ops' evs)
  case Nil
  then show ?case by simp
next
  case (Cons operation rest)
  show ?case
  proof (cases "op_command operation \<in> set reserved")
    case True
    obtain r2 st2 inst2 rest2 evs2 where
      rec: "run_operations host st inst rest = (r2, st2, inst2, rest2, evs2)"
      by (cases "run_operations host st inst rest") auto
    from Cons.prems True rec
    have "r2 = None" "inst2 = inst'" "ops' = operation # rest2" "evs2 = evs" by simp_all
    with Cons.IH [of st inst st2 inst2 rest2 evs2] rec True show ?thesis by simp
  next
    case False
    define op1 where "op1 = process_environment host inst operation"
    obtain r1 inst1 op2 evs1 where mr: "module_run inst op1 = (r1, inst1, op2, evs1)"
      by (cases "module_run inst op1") auto
    obtain r2 st2 inst2 rest2 evs2 where
      rec: "run_operations host Passed inst1 rest = (r2, st2, inst2, rest2, evs2)"
      by (cases "run_operations host Passed inst1 rest") auto
    from Cons.prems False mr rec
    have eqs: "r1 = None" "r2 = None" "inst2 = inst'" "ops' = op2 # rest2"
      "evs = EvRun (op_command op1) (op_args op1) # evs1 @ evs2"
      by (auto simp: op1_def [symmetric] Let_def split: option.splits)
    from mr eqs have m1: "inst_state inst1 = inst_state inst" "op_state op2 = Passed"
      using module_run_success by blast+
    from module_run_events [OF mr] have m2: "EvTeardown \<notin> set evs1" "EvSetup \<notin> set evs1"
      by auto
    from Cons.IH [of Passed inst1 st2 inst2 rest2 evs2] rec eqs m1 m2 show ?thesis
      by simp
  qed
qed

text \<open>
  C3, as the code has it. When \<open>setup\<close> returns and the loop over the operations raises
  nothing, \<open>teardown()\<close> is called once, after everything the operations did, and when it
  returns the state of the runner is Passed. The \<open>state\<close> attribute of the module object and
  that of its instance are not written: they are what they were before the run. Every
  operation that was not skipped as a reserved name is left Passed.
\<close>

theorem completed_run_tears_down:
  fixes inst :: "'w module_instance"
  assumes su: "inst_setup inst (inst_world inst) = (None, w0)"
    and ops: "run_operations host rs (inst\<lparr>inst_world := w0\<rparr>) ops = (None, st, inst', ops', evs)"
    and td: "inst_teardown inst' (inst_world inst') = (r, w')"
  shows "runner_run host
           \<lparr>runner_module = \<lparr>mod_name = n, mod_operations = ops, mod_instance = inst,
               mod_state = ms\<rparr>, runner_state = rs\<rparr>
         = (r,
            \<lparr>runner_module = \<lparr>mod_name = n, mod_operations = ops',
               mod_instance = inst'\<lparr>inst_world := w'\<rparr>, mod_state = ms\<rparr>,
             runner_state = (if r = None then Passed else st)\<rparr>,
            EvSetup # evs @ [EvTeardown])
    \<and> inst_state inst' = inst_state inst
    \<and> EvTeardown \<notin> set evs
    \<and> (\<forall>operation \<in> set ops'. op_command operation \<in> set reserved \<or> op_state operation = Passed)"
proof -
  have "runner_run host
           \<lparr>runner_module = \<lparr>mod_name = n, mod_operations = ops, mod_instance = inst,
               mod_state = ms\<rparr>, runner_state = rs\<rparr>
         = (r,
            \<lparr>runner_module = \<lparr>mod_name = n, mod_operations = ops',
               mod_instance = inst'\<lparr>inst_world := w'\<rparr>, mod_state = ms\<rparr>,
             runner_state = (if r = None then Passed else st)\<rparr>,
            EvSetup # evs @ [EvTeardown])"
    using su ops td by (cases r) (simp_all add: runner_run_def Let_def)
  moreover from run_operations_success [OF ops]
  have "inst_state inst' = inst_state (inst\<lparr>inst_world := w0\<rparr>)" "EvTeardown \<notin> set evs"
    "\<forall>operation \<in> set ops'. op_command operation \<in> set reserved \<or> op_state operation = Passed"
    by blast+
  ultimately show ?thesis by simp
qed

theorem completed_run_tears_down_witness:
  "runner_run Map.empty
     (ModuleRunner (dump_module [Operation ''teardown'' None, Operation ''dump'' (Some [''a'', ''b''])]))
   = (None,
      \<lparr>runner_module = \<lparr>mod_name = ''base.Dummy'',
         mod_operations = [Operation ''teardown'' None,
           (Operation ''dump'' (Some [''a'', ''b'']))\<lparr>op_state := Passed\<rparr>],
         mod_instance = dump_instance, mod_state = NotRun\<rparr>, runner_state = Passed\<rparr>,
      [EvSetup, EvRun ''dump'' [''a'', ''b''], EvCall ''dump'' [''a'', ''b''] Map.empty, EvTeardown])"
proof -
  have lp: "run_operations Map.empty Processing (dump_instance\<lparr>inst_world := ()\<rparr>)
      [Operation ''teardown'' None, Operation ''dump'' (Some [''a'', ''b''])]
    = (None, Passed, dump_instance,
       [Operation ''teardown'' None, (Operation ''dump'' (Some [''a'', ''b'']))\<lparr>op_state := Passed\<rparr>],
       [EvRun ''dump'' [''a'', ''b''], EvCall ''dump'' [''a'', ''b''] Map.empty])"
    by (simp add: run_eval)
  have su: "inst_setup dump_instance (inst_world dump_instance) = (None, ())"
    and td: "inst_teardown dump_instance (inst_world dump_instance) = (None, ())"
    by (simp_all add: dump_instance_def)
  from completed_run_tears_down [OF su lp td, of "''base.Dummy''" NotRun]
  show ?thesis
    by (simp add: ModuleRunner_def dump_module_def)
qed

text \<open>
  Where the code leaves C3 as stated: after a run of one \<open>dump\<close> operation that completes,
  with \<open>teardown\<close> called, the runner is Passed but the module and its instance are still
  NotRun.
\<close>

theorem completed_run_counterexample:
  "runner_run Map.empty (ModuleRunner (dump_module [Operation ''dump'' (Some [''hello''])]))
   = (None,
      \<lparr>runner_module = \<lparr>mod_name = ''base.Dummy'',
         mod_operations = [(Operation ''dump'' (Some [''hello'']))\<lparr>op_state := Passed\<rparr>],
         mod_instance = dump_instance, mod_state = NotRun\<rparr>, runner_state = Passed\<rparr>,
      [EvSetup, EvRun ''dump'' [''hello''], EvCall ''dump'' [''hello''] Map.empty, EvTeardown])
   \<and> mod_state (runner_module (fst (snd (runner_run Map.empty
         (ModuleRunner (dump_module [Operation ''dump'' (Some [''hello''])])))))) \<noteq> Passed
   \<and> inst_state (mod_instance (runner_module (fst (snd (runner_run Map.empty
         (ModuleRunner (dump_module [Operation ''dump'' (Some [''hello''])]))))))) \<noteq> Passed"
  by (simp add: run_eval)


section \<open>Script introspection\<close>

lemma discover_lines_append:
  "discover_lines s (xs @ ys) =
     (case discover_lines s xs of Inl e \<Rightarrow> Inl e | Inr s' \<Rightarrow> discover_lines s' ys)"
  by (induction xs arbitrary: s) (auto split: sum.splits)

lemma discover_line_comment:
  "discover_line (names, c, n) l = Inr (names', c', n') \<Longrightarrow> c' = comment_step c l"
  by (auto simp: discover_line_def comment_step_def is_comment_def is_other_def
      split: if_splits sum.splits option.splits)

lemma discover_lines_comment:
  "discover_lines (names, c, n) ls = Inr (names', c', n') \<Longrightarrow> c' = foldl comment_step c ls"
proof (induction ls arbitrary: names c n)
  case Nil
  then show ?case by simp
next
  case (Cons l ls)
  from Cons.prems obtain names1 c1 n1 where
    1: "discover_line (names, c, n) l = Inr (names1, c1, n1)"
    and 2: "discover_lines (names1, c1, n1) ls = Inr (names', c', n')"
    by (auto split: sum.splits)
  from discover_line_comment [OF 1] Cons.IH [OF 2] show ?case by simp
qed

lemma after_reset_snoc:
  "after_reset (ls @ [l]) = (if is_other l then [] else after_reset ls @ [l])"
  by (simp add: after_reset_def)

lemma foldl_comment_after_reset:
  "foldl comment_step [] ls = concat (map (drop 1) (filter is_comment (after_reset ls)))"
proof (induction ls rule: rev_induct)
  case Nil
  then show ?case by (simp add: after_reset_def)
next
  case (snoc l ls)
  then show ?case
    by (auto simp: after_reset_snoc comment_step_def is_other_def)
qed

lemma discover_line_function:
  assumes "discover_line (names, c, n) d = Inr (names', c', n')" and "is_function d"
  shows "function_name d = Inr n' \<and>
         names' n' = Some \<lparr>fd_name = n', fd_comment = c, fd_params = Map.empty\<rparr>"
  using assms
  by (auto simp: discover_line_def is_function_def is_comment_def split: sum.splits)

lemma discover_line_keeps:
  assumes "discover_line (names, c, n) l = Inr (names', c', n')"
    and "names k = Some fd"
    and "is_function l \<longrightarrow> function_name l \<noteq> Inr k"
  shows "\<exists>fd'. names' k = Some fd' \<and> fd_name fd' = fd_name fd \<and> fd_comment fd' = fd_comment fd"
  using assms
  by (auto simp: discover_line_def is_function_def is_comment_def
      split: if_splits sum.splits option.splits)

lemma discover_lines_keeps:
  assumes "discover_lines (names, c, n) ls = Inr (names', c', n')"
    and "names k = Some fd"
    and "\<forall>l \<in> set ls. is_function l \<longrightarrow> function_name l \<noteq> Inr k"
  shows "\<exists>fd'. names' k = Some fd' \<and> fd_name fd' = fd_name fd \<and> fd_comment fd' = fd_comment fd"
  using assms
proof (induction ls arbitrary: names c n fd)
  case Nil
  then show ?case by simp
next
  case (Cons l ls)
  from Cons.prems(1) obtain names1 c1 n1 where
    1: "discover_line (names, c, n) l = Inr (names1, c1, n1)"
    and 2: "discover_lines (names1, c1, n1) ls = Inr (names', c', n')"
    by (auto split: sum.splits)
  from discover_line_keeps [OF 1 Cons.prems(2)] Cons.prems(3)
  obtain fd1 where 3: "names1 k = Some fd1" "fd_name fd1 = fd_name fd" "fd_comment fd1 = fd_comment fd"
    by auto
  from Cons.IH [OF 2 3(1)] Cons.prems(3) 3 show ?case by auto
qed


lemma after_reset_comments:
  assumes "p0 = [] \<or> is_other (last p0)" and "\<forall>c \<in> set cs. is_comment c"
  shows "filter is_comment (after_reset (p0 @ cs)) = cs"
proof -
  have nc: "\<forall>c \<in> set (rev cs). \<not> is_other c"
    using assms(2) by (auto simp: is_other_def)
  have split: "takeWhile (\<lambda>l. \<not> is_other l) (rev cs @ rev p0) =
      rev cs @ takeWhile (\<lambda>l. \<not> is_other l) (rev p0)"
    by (rule takeWhile_append2) (use nc in auto)
  have "takeWhile (\<lambda>l. \<not> is_other l) (rev p0) = []"
  proof (cases "p0 = []")
    case True
    then show ?thesis by simp
  next
    case False
    then obtain q x where q: "p0 = q @ [x]" by (metis rev_exhaust)
    with assms(1) have "is_other x" by simp
    with q show ?thesis by simp
  qed
  with split have "takeWhile (\<lambda>l. \<not> is_other l) (rev cs @ rev p0) = rev cs" by simp
  then have "after_reset (p0 @ cs) = cs" by (simp add: after_reset_def)
  with assms(2) show ?thesis by simp
qed

lemma after_reset_no_comments:
  assumes "is_other r" and "\<forall>l \<in> set mid. \<not> is_comment l"
  shows "filter is_comment (after_reset (p0 @ r # mid)) = []"
proof -
  have "set (takeWhile (\<lambda>l. \<not> is_other l) (rev mid @ r # rev p0)) \<subseteq> set mid"
  proof (cases "\<forall>x \<in> set (rev mid). \<not> is_other x")
    case True
    then have "takeWhile (\<lambda>l. \<not> is_other l) (rev mid @ r # rev p0) =
        rev mid @ takeWhile (\<lambda>l. \<not> is_other l) (r # rev p0)"
      by (intro takeWhile_append2) auto
    with assms(1) show ?thesis by simp
  next
    case False
    then have "takeWhile (\<lambda>l. \<not> is_other l) (rev mid @ r # rev p0) =
        takeWhile (\<lambda>l. \<not> is_other l) (rev mid)"
      by (auto intro: takeWhile_append1)
    then show ?thesis
      using set_takeWhileD [of _ "\<lambda>l. \<not> is_other l" "rev mid"] by auto
  qed
  then have "set (after_reset (p0 @ r # mid)) \<subseteq> set mid"
    by (simp add: after_reset_def)
  with assms(2) show ?thesis
    by (auto simp: filter_empty_conv)
qed

text \<open>
  C8, as the code has it. Introspection of the lines \<open>pre\<close>, a function definition \<open>d\<close> and
  the lines \<open>post\<close> returns, and no later line of \<open>post\<close> defines a function of the same
  name. Then the descriptor of the function has as documentation the comment lines of
  \<open>pre\<close> that come after its last resetting line (a line that is no comment, holds no
  \<open>function\<close> and no parameter reference), each without its sigil, in order. So when the
  comment lines right before \<open>d\<close> start the file or follow a resetting line, the
  documentation is exactly those lines; and when a resetting line comes between the comment
  block and \<open>d\<close>, with no comment line after it, the documentation is empty.
\<close>

theorem discover_documentation:
  assumes "discover (pre @ d # post) = Inr names"
    and "is_function d"
    and "\<forall>l \<in> set post. is_function l \<longrightarrow> function_name l \<noteq> function_name d"
  shows "documentation names d =
           Some (concat (map (drop 1) (filter is_comment (after_reset pre))))
    \<and> (\<forall>p0 cs. pre = p0 @ cs \<and> (p0 = [] \<or> is_other (last p0)) \<and> (\<forall>c \<in> set cs. is_comment c) \<longrightarrow>
          documentation names d = Some (concat (map (drop 1) cs)))
    \<and> (\<forall>p0 r mid. pre = p0 @ r # mid \<and> is_other r \<and> (\<forall>l \<in> set mid. \<not> is_comment l) \<longrightarrow>
          documentation names d = Some [])"
proof -
  from assms(1) obtain c n where
    all: "discover_lines (Map.empty, [], []) (pre @ d # post) = Inr (names, c, n)"
    by (auto simp: discover_def split: sum.splits)
  then obtain names1 c1 n1 where
    1: "discover_lines (Map.empty, [], []) pre = Inr (names1, c1, n1)"
    and r1: "discover_lines (names1, c1, n1) (d # post) = Inr (names, c, n)"
    by (auto simp: discover_lines_append split: sum.splits)
  from r1 obtain names2 c2 n2 where
    2: "discover_line (names1, c1, n1) d = Inr (names2, c2, n2)"
    and 3: "discover_lines (names2, c2, n2) post = Inr (names, c, n)"
    by (auto split: sum.splits)
  from discover_lines_comment [OF 1]
  have c1: "c1 = concat (map (drop 1) (filter is_comment (after_reset pre)))"
    by (simp add: foldl_comment_after_reset)
  from discover_line_function [OF 2 assms(2)]
  have fn: "function_name d = Inr n2"
    and reg: "names2 n2 = Some \<lparr>fd_name = n2, fd_comment = c1, fd_params = Map.empty\<rparr>"
    by simp_all
  from assms(3) fn have "\<forall>l \<in> set post. is_function l \<longrightarrow> function_name l \<noteq> Inr n2"
    by simp
  from discover_lines_keeps [OF 3 reg this]
  obtain fd where "names n2 = Some fd" "fd_comment fd = c1" by auto
  with fn c1 have main: "documentation names d =
      Some (concat (map (drop 1) (filter is_comment (after_reset pre))))"
    by (simp add: documentation_def)
  show ?thesis
    using main by (auto simp: after_reset_comments after_reset_no_comments)
qed


lemmas discover_eval = discover_def discover_line_def function_name_def param_name_def py_split_def
  is_space_def is_digit_def is_function_def is_comment_def is_other_def documentation_def
  discovered_documentation_def NL_def

theorem discover_documentation_witness:
  "discovered_documentation
     [''# one'' @ NL, ''# two'' @ NL, ''function doit() {'' @ NL, ''  local port=$1'' @ NL, ''}'' @ NL]
     (''function doit() {'' @ NL) = Some ('' one'' @ NL @ '' two'' @ NL)
   \<and> discovered_documentation [''# one'' @ NL, NL, ''function doit() {'' @ NL]
     (''function doit() {'' @ NL) = Some []"
proof -
  let ?d = "''function doit() {'' @ NL"
  obtain n1 where n1: "discover ([''# one'' @ NL, ''# two'' @ NL] @ ?d # [''  local port=$1'' @ NL, ''}'' @ NL]) = Inr n1"
    by (simp add: discover_eval)
  obtain n2 where n2: "discover ([''# one'' @ NL, NL] @ ?d # []) = Inr n2"
    by (simp add: discover_eval)
  have f: "is_function ?d" by (simp add: discover_eval)
  have p1: "\<forall>l \<in> set [''  local port=$1'' @ NL, ''}'' @ NL]. is_function l \<longrightarrow> function_name l \<noteq> function_name ?d"
    by (simp add: discover_eval)
  have o: "is_other NL" "is_comment (''# one'' @ NL)" "is_comment (''# two'' @ NL)"
    by (simp_all add: discover_eval)
  from discover_documentation [OF n1 f p1] o
  have "documentation n1 ?d = Some (concat (map (drop 1) [''# one'' @ NL, ''# two'' @ NL]))"
    by (metis append_Nil set_ConsD list.set(1) empty_iff)
  moreover from discover_documentation [OF n2 f] o
  have "documentation n2 ?d = Some []"
    by (metis append_Cons append_Nil list.set(1) empty_iff)
  ultimately show ?thesis
    using n1 n2 by (simp add: discovered_documentation_def)
qed

text \<open>
  Where the code leaves C8 as stated: the definition of \<open>g\<close> is immediately preceded by the
  one comment line \<open># b\<close>, and its documentation is not that line alone, since the
  one-line definition of \<open>f\<close> before it does not reset the comment of \<open>f\<close>.
\<close>

theorem discover_documentation_counterexample:
  "discovered_documentation
     [''# a'' @ NL, ''function f() { echo hi; }'' @ NL, ''# b'' @ NL, ''function g() {'' @ NL]
     (''function g() {'' @ NL) = Some ('' a'' @ NL @ '' b'' @ NL)
   \<and> discovered_documentation
     [''# a'' @ NL, ''function f() { echo hi; }'' @ NL, ''# b'' @ NL, ''function g() {'' @ NL]
     (''function g() {'' @ NL) \<noteq> Some ('' b'' @ NL)"
  by (simp add: discover_eval)

section \<open>Artifact integrity\<close>

lemma check_sum_missing:
  "files p = None \<Longrightarrow> check_sum l files (a\<lparr>art_path := Some p\<rparr>) = Inr False"
  by (simp add: check_sum_def)

lemma check_sum_present:
  assumes "files p = Some content"
    and "art_chksum a = algo @ '':'' @ hex" and "CHR '':'' \<notin> set algo"
    and "lib_hashlib l algo = Some h"
  shows "check_sum l files (a\<lparr>art_path := Some p\<rparr>) = Inr (hex = h content)"
proof -
  have "takeWhile (\<lambda>c. c \<noteq> CHR '':'') (algo @ '':'' @ hex) = algo"
    using assms(3) by (induction algo) auto
  moreover have "dropWhile (\<lambda>c. c \<noteq> CHR '':'') (algo @ '':'' @ hex) = '':'' @ hex"
    using assms(3) by (induction algo) auto
  ultimately show ?thesis
    using assms by (simp add: check_sum_def)
qed

text \<open>
  C6. The artifact has no file at its target path. Then \<open>fetch\<close> makes exactly one download,
  of the artifact's URL to that path. If the download returns bytes whose digest, by the
  algorithm that the checksum names, differs from the declared hex digest, \<open>fetch\<close> raises
  the integrity error. If \<open>fetch\<close> returns, the checksum has validated. And whenever
  \<open>fetch\<close> raises, \<open>_get_artifacts\<close> raises the same error there and the artifact mapping is
  left as it was: the artifact is not added.
\<close>

theorem fetch_missing_file:
  assumes "w_files w (path_join directory (art_filename a)) = None"
    and "fetch l directory a w = (r, a', w')"
  shows "w_downloads w' = w_downloads w @ [(art_url a, path_join directory (art_filename a))]
    \<and> (\<forall>content algo hex h.
          lib_urlretrieve l (art_url a) = Inr content \<and> art_chksum a = algo @ '':'' @ hex \<and>
          CHR '':'' \<notin> set algo \<and> lib_hashlib l algo = Some h \<and> h content \<noteq> hex \<longrightarrow>
          r = Some (CCTError (''Artifact from '' @ art_url a @ '' doesn'' @ [CHR 0x27]
                @ ''t match required chksum '' @ art_chksum a)))
    \<and> (r = None \<longrightarrow> check_sum l (w_files w') a' = Inr True)
    \<and> (\<forall>host artifact rest.
          CctArtifact_kwargs l host artifact = Inr a \<and> r \<noteq> None \<longrightarrow>
          get_artifacts l host (artifact # rest) directory w = (r, w') \<and>
          w_artifacts w' = w_artifacts w)"
proof -
  let ?p = "path_join directory (art_filename a)"
  let ?a1 = "a\<lparr>art_path := Some ?p\<rparr>"
  have c0: "check_sum l (w_files w) ?a1 = Inr False"
    using assms(1) by (rule check_sum_missing)
  have dl: "w_downloads w' = w_downloads w @ [(art_url a, ?p)]"
    and arts: "w_artifacts w' = w_artifacts w" and a': "a' = ?a1"
    using assms(2) c0
    by (auto simp: fetch_def Let_def split: sum.splits bool.splits if_splits)
  have mismatch: "r = Some (CCTError (''Artifact from '' @ art_url a @ '' doesn'' @ [CHR 0x27]
                @ ''t match required chksum '' @ art_chksum a))"
    if "lib_urlretrieve l (art_url a) = Inr content" "art_chksum a = algo @ '':'' @ hex"
      "CHR '':'' \<notin> set algo" "lib_hashlib l algo = Some h" "h content \<noteq> hex"
    for content algo hex h
  proof -
    have "check_sum l ((w_files w)(?p \<mapsto> content)) ?a1 = Inr (hex = h content)"
      using that by (intro check_sum_present) simp_all
    with that(5) have "check_sum l ((w_files w)(?p \<mapsto> content)) ?a1 = Inr False" by auto
    with assms(2) c0 that(1) show ?thesis
      by (simp add: fetch_def Let_def)
  qed
  have ok: "check_sum l (w_files w') a' = Inr True" if "r = None"
    using assms(2) c0 that
    by (auto simp: fetch_def Let_def split: sum.splits bool.splits if_splits)
  have reg: "get_artifacts l host (artifact # rest) directory w = (r, w')"
    if "CctArtifact_kwargs l host artifact = Inr a" "r \<noteq> None" for host artifact rest
    using that assms(2) by auto
  from dl mismatch ok reg arts show ?thesis by blast
qed


theorem fetch_missing_file_witness:
  "fst (get_artifacts example_lib Map.empty [example_artifact] ''/modules/m'' empty_world)
     = Some (CCTError (''Artifact from http://host/a.jar doesn'' @ [CHR 0x27]
          @ ''t match required chksum md5:ff''))
   \<and> w_downloads (snd (get_artifacts example_lib Map.empty [example_artifact] ''/modules/m'' empty_world))
     = [(''http://host/a.jar'', ''/modules/m/a.jar'')]
   \<and> w_artifacts (snd (get_artifacts example_lib Map.empty [example_artifact] ''/modules/m'' empty_world))
     = Map.empty"
proof -
  let ?a = "\<lparr>art_name = ''a.jar'', art_chksum = ''md5:ff'', art_url = ''http://host/a.jar'',
      art_filename = ''a.jar'', art_path = None\<rparr>"
  have k: "CctArtifact_kwargs example_lib Map.empty example_artifact = Inr ?a"
    by (simp add: CctArtifact_kwargs_def CctArtifact_init_def example_artifact_def)
  have p: "path_join ''/modules/m'' (art_filename ?a) = ''/modules/m/a.jar''"
    by (simp add: path_join_def)
  have nofile: "w_files empty_world (path_join ''/modules/m'' (art_filename ?a)) = None"
    by (simp add: empty_world_def)
  obtain r a' w' where f: "fetch example_lib ''/modules/m'' ?a empty_world = (r, a', w')"
    by (cases "fetch example_lib ''/modules/m'' ?a empty_world") auto
  note th = fetch_missing_file [OF nofile f]
  from th have "w_downloads w' = w_downloads empty_world @
      [(art_url ?a, path_join ''/modules/m'' (art_filename ?a))]"
    by blast
  then have dl: "w_downloads w' = [(''http://host/a.jar'', ''/modules/m/a.jar'')]"
    by (simp add: path_join_def empty_world_def)
  from th have "lib_urlretrieve example_lib (art_url ?a) = Inr ''bytes'' \<and>
      art_chksum ?a = ''md5'' @ '':'' @ ''ff'' \<and> CHR '':'' \<notin> set ''md5'' \<and>
      lib_hashlib example_lib ''md5'' = Some (\<lambda>content. ''00'') \<and> (\<lambda>content. ''00'') ''bytes'' \<noteq> ''ff'' \<longrightarrow>
      r = Some (CCTError (''Artifact from '' @ art_url ?a @ '' doesn'' @ [CHR 0x27]
                @ ''t match required chksum '' @ art_chksum ?a))"
    by blast
  then have r: "r = Some (CCTError (''Artifact from http://host/a.jar doesn'' @ [CHR 0x27]
          @ ''t match required chksum md5:ff''))"
    by (simp add: example_lib_def)
  from th k r have "get_artifacts example_lib Map.empty (example_artifact # []) ''/modules/m'' empty_world = (r, w')
      \<and> w_artifacts w' = w_artifacts empty_world"
    by blast
  with r dl show ?thesis by (simp add: empty_world_def)
qed

end
